theory Spec2Isabelle
  imports Complex_Main "HOL-Library.AList"
begin

section \<open>JavaScript strings\<close>

text \<open>
  A JavaScript string is a sequence of code units. The model uses \<^typ>\<open>string\<close>, so a
  character stands for a code unit in the range U+0000..U+00FF. The white space of
  \<open>String.prototype.trim\<close> and of the regular expression class \<open>\s\<close> in that range is
  TAB, LF, VT, FF, CR, SPACE and NBSP.
\<close>

definition is_ws :: "char \<Rightarrow> bool" where
  "is_ws c = (of_char c \<in> {9, 10, 11, 12, 13, 32, 160 :: nat})"

definition trim :: "string \<Rightarrow> string" where
  "trim s = rev (dropWhile is_ws (rev (dropWhile is_ws s)))"

text \<open>A string is truthy when it is not empty.\<close>

definition truthy :: "string \<Rightarrow> bool" where
  "truthy s = (s \<noteq> [])"

fun startsWith :: "string \<Rightarrow> string \<Rightarrow> bool" where
  "startsWith s [] = True"
| "startsWith [] (p # ps) = False"
| "startsWith (c # cs) (p # ps) = (c = p \<and> startsWith cs ps)"

fun includes_str :: "string \<Rightarrow> string \<Rightarrow> bool" where
  "includes_str [] sub = (sub = [])"
| "includes_str (c # cs) sub = (startsWith (c # cs) sub \<or> includes_str cs sub)"

text \<open>\<open>s.split(c)\<close> for a one-character separator: never an empty array.\<close>

fun split :: "char \<Rightarrow> string \<Rightarrow> string list" where
  "split sep [] = [[]]"
| "split sep (c # cs) =
     (if c = sep then [] # split sep cs
      else (case split sep cs of [] \<Rightarrow> [[c]] | p # ps \<Rightarrow> (c # p) # ps))"

text \<open>\<open>xs.join(sep)\<close> on an array of strings.\<close>

fun join :: "string \<Rightarrow> string list \<Rightarrow> string" where
  "join sep [] = []"
| "join sep [x] = x"
| "join sep (x # y # ys) = x @ sep @ join sep (y # ys)"

text \<open>
  \<open>toLowerCase\<close> on the modelled range: A..Z and the Latin-1 capitals U+00C0..U+00DE
  (without the multiplication sign U+00D7) move up by 32.
\<close>

definition lower_char :: "char \<Rightarrow> char" where
  "lower_char c =
     (let n = (of_char c :: nat)
      in if (65 \<le> n \<and> n \<le> 90) \<or> (192 \<le> n \<and> n \<le> 222 \<and> n \<noteq> 215)
         then char_of (n + 32) else c)"

definition toLowerCase :: "string \<Rightarrow> string" where
  "toLowerCase s = map lower_char s"

section \<open>The chat page: folding WebSocket events into the view state\<close>

text \<open>
  A chat message. The optional \<open>metadata\<close> field is opaque and no handler reads or
  writes it, so it is left out.
\<close>

datatype role = User | Assistant | System | ThinkingRole

record ChatMessage =
  message_id :: string
  role :: role
  content :: string
  timestamp :: string

record ThinkingStep =
  step :: string
  ts_timestamp :: string
  completed :: "bool option"

datatype tool_status = Started | Completed | Failed

text \<open>
  The events of the \<open>switch (type)\<close> in the handler registered by \<open>AIChat\<close>. An
  \<open>error\<close> event may come without a message. Any other type falls through the switch.
\<close>

datatype event =
    Welcome string
  | Thinking string string
  | ToolCall tool_status
  | ResponseChunk string
  | ResponseComplete string string
  | ErrorEvent "string option"
  | History "ChatMessage list"
  | OtherEvent

record chat_state =
  messages :: "ChatMessage list"
  thinkingSteps :: "ThinkingStep list"
  isProcessing :: bool
  isConnected :: bool
  error :: string

text \<open>The values of the \<open>useState\<close> calls of \<open>AIChat\<close>.\<close>

definition initial_state :: chat_state where
  "initial_state =
     \<lparr>messages = [], thinkingSteps = [], isProcessing = False, isConnected = True,
      error = []\<rparr>"

text \<open>\<open>prev.slice(0, -1)\<close> and \<open>prev[prev.length - 1]\<close> (undefined on an empty array).\<close>

definition lastMessage :: "'a list \<Rightarrow> 'a option" where
  "lastMessage prev = (if prev = [] then None else Some (last prev))"

definition mark_last_completed :: "ThinkingStep list \<Rightarrow> ThinkingStep list" where
  "mark_last_completed prev =
     map (\<lambda>(i, s). if i = length prev - 1 then s\<lparr>completed := Some True\<rparr> else s)
       (enumerate 0 prev)"

definition response_chunk :: "string \<Rightarrow> string \<Rightarrow> ChatMessage list \<Rightarrow> ChatMessage list" where
  "response_chunk now chunk prev =
     (case lastMessage prev of
        Some m \<Rightarrow>
          if role m = Assistant \<and> \<not> startsWith (message_id m) ''final-''
          then butlast prev @ [m\<lparr>content := content m @ chunk\<rparr>]
          else prev @ [\<lparr>message_id = ''streaming'', role = Assistant, content = chunk,
                        timestamp = now\<rparr>]
      | None \<Rightarrow>
          prev @ [\<lparr>message_id = ''streaming'', role = Assistant, content = chunk,
                    timestamp = now\<rparr>])"

definition response_complete :: "string \<Rightarrow> string \<Rightarrow> ChatMessage list \<Rightarrow> ChatMessage list" where
  "response_complete mid full_content prev =
     (case lastMessage prev of
        Some m \<Rightarrow>
          if message_id m = ''streaming''
          then butlast prev @ [m\<lparr>message_id := ''final-'' @ mid, content := full_content\<rparr>]
          else prev
      | None \<Rightarrow> prev)"

text \<open>
  One call of the handler. \<open>isExistingSession\<close> is the flag captured by the closure
  (true when the session id came from the URL), \<open>now\<close> is the reading of the clock
  (\<open>new Date().toISOString()\<close>) at the call.
\<close>

fun onMessage :: "bool \<Rightarrow> string \<Rightarrow> chat_state \<Rightarrow> event \<Rightarrow> chat_state" where
  "onMessage isExistingSession now s (Welcome greeting) =
     (let s1 = (if \<not> isExistingSession
                then s\<lparr>messages := [\<lparr>message_id = ''welcome'', role = Assistant,
                                       content = greeting, timestamp = now\<rparr>]\<rparr>
                else s)
      in s1\<lparr>isConnected := True\<rparr>)"
| "onMessage isExistingSession now s (Thinking st ts) =
     s\<lparr>thinkingSteps := thinkingSteps s @ [\<lparr>step = st, ts_timestamp = ts, completed = None\<rparr>]\<rparr>"
| "onMessage isExistingSession now s (ToolCall status) =
     (if status = Completed
      then s\<lparr>thinkingSteps := mark_last_completed (thinkingSteps s)\<rparr>
      else s)"
| "onMessage isExistingSession now s (ResponseChunk chunk) =
     s\<lparr>messages := response_chunk now chunk (messages s)\<rparr>"
| "onMessage isExistingSession now s (ResponseComplete mid full_content) =
     s\<lparr>thinkingSteps := [], isProcessing := False,
       messages := response_complete mid full_content (messages s)\<rparr>"
| "onMessage isExistingSession now s (ErrorEvent msg) =
     s\<lparr>error := (case msg of
                    Some m \<Rightarrow> if truthy m then m else ''An error occurred''
                  | None \<Rightarrow> ''An error occurred''),
       isProcessing := False,
       thinkingSteps := []\<rparr>"
| "onMessage isExistingSession now s (History ms) = s\<lparr>messages := ms\<rparr>"
| "onMessage isExistingSession now s OtherEvent = s"

text \<open>
  Events are handled one at a time, in the order of arrival; each comes with the clock
  reading at its arrival.
\<close>

definition run_events :: "bool \<Rightarrow> chat_state \<Rightarrow> (string \<times> event) list \<Rightarrow> chat_state" where
  "run_events isExistingSession s evs =
     foldl (\<lambda>st (now, ev). onMessage isExistingSession now st ev) s evs"

text \<open>
  \<open>handleSendMessage\<close>. \<open>hasService\<close> says whether the service reference is set,
  \<open>socketOpen\<close> whether \<open>service.sendMessage\<close> finds the socket open (it throws
  otherwise, after the user message has been added), \<open>millis\<close> is \<open>Date.now()\<close> as
  printed in the message id.
\<close>

definition handleSendMessage ::
  "bool \<Rightarrow> bool \<Rightarrow> string \<Rightarrow> string \<Rightarrow> chat_state \<Rightarrow> string \<Rightarrow> chat_state" where
  "handleSendMessage hasService socketOpen millis now s message =
     (if \<not> hasService \<or> isProcessing s then s
      else (let userMessage = \<lparr>message_id = ''user-'' @ millis, role = User,
                                content = message, timestamp = now\<rparr>;
                s1 = s\<lparr>messages := messages s @ [userMessage]\<rparr>
            in if socketOpen then s1\<lparr>isProcessing := True, error := []\<rparr>
               else s1\<lparr>error := ''Failed to send message. Please try again.'',
                       isProcessing := False\<rparr>))"

section \<open>The chat service: reconnecting after a close\<close>
















section \<open>JavaScript numbers and \<open>parseFloat\<close>\<close>

text \<open>
  A number is \<open>NaN\<close>, an infinity or a finite value. Finite values are kept exact, as
  rationals: the rounding of a decimal literal to the nearest double is left out of the
  model, and so is the sign of zero.
\<close>

datatype jsnum = NaN | NegInf | Fin rat | PosInf

definition isNaN :: "jsnum \<Rightarrow> bool" where
  "isNaN n = (n = NaN)"

fun num_neg :: "jsnum \<Rightarrow> jsnum" where
  "num_neg NaN = NaN"
| "num_neg NegInf = PosInf"
| "num_neg PosInf = NegInf"
| "num_neg (Fin r) = Fin (- r)"

text \<open>\<open>a - b\<close>; an infinity minus itself is \<open>NaN\<close>.\<close>

fun num_sub :: "jsnum \<Rightarrow> jsnum \<Rightarrow> jsnum" where
  "num_sub NaN b = NaN"
| "num_sub a NaN = NaN"
| "num_sub (Fin a) (Fin b) = Fin (a - b)"
| "num_sub (Fin a) PosInf = NegInf"
| "num_sub (Fin a) NegInf = PosInf"
| "num_sub PosInf PosInf = NaN"
| "num_sub PosInf b = PosInf"
| "num_sub NegInf NegInf = NaN"
| "num_sub NegInf b = NegInf"

text \<open>\<open>a <= b\<close> and \<open>a > b\<close>; every comparison with \<open>NaN\<close> is false.\<close>

fun num_le :: "jsnum \<Rightarrow> jsnum \<Rightarrow> bool" where
  "num_le NaN b = False"
| "num_le a NaN = False"
| "num_le NegInf b = True"
| "num_le a PosInf = True"
| "num_le (Fin a) (Fin b) = (a \<le> b)"
| "num_le PosInf b = False"
| "num_le a NegInf = False"

definition num_gt :: "jsnum \<Rightarrow> jsnum \<Rightarrow> bool" where
  "num_gt a b = (a \<noteq> NaN \<and> b \<noteq> NaN \<and> \<not> num_le a b)"

definition is_digit :: "char \<Rightarrow> bool" where
  "is_digit c = (48 \<le> (of_char c :: nat) \<and> (of_char c :: nat) \<le> 57)"

definition digits_val :: "string \<Rightarrow> nat" where
  "digits_val ds = foldl (\<lambda>acc d. 10 * acc + (of_char d - 48)) 0 ds"

text \<open>
  The value of the exponent part (\<open>e\<close> or \<open>E\<close>, an optional sign, digits) at the front
  of a string; 0 when there is none, since the longest literal then ends before it.
\<close>

definition exponent_part :: "string \<Rightarrow> int" where
  "exponent_part s =
     (if startsWith s ''e'' \<or> startsWith s ''E''
      then (let r = tl s;
                neg = startsWith r ''-'';
                r1 = (if startsWith r ''-'' \<or> startsWith r ''+'' then tl r else r);
                ds = takeWhile is_digit r1
            in if ds = [] then 0
               else if neg then - int (digits_val ds) else int (digits_val ds))
      else 0)"

definition scale10 :: "rat \<Rightarrow> int \<Rightarrow> rat" where
  "scale10 m e = (if 0 \<le> e then m * 10 ^ nat e else m / 10 ^ nat (- e))"

text \<open>The longest prefix that is a \<open>StrUnsignedDecimalLiteral\<close>, or \<open>NaN\<close> without one.\<close>

definition unsigned_decimal :: "string \<Rightarrow> jsnum" where
  "unsigned_decimal s =
     (if startsWith s ''Infinity'' then PosInf
      else (let ip = takeWhile is_digit s; r1 = dropWhile is_digit s
            in if startsWith r1 ''.''
               then (let fp = takeWhile is_digit (tl r1); r2 = dropWhile is_digit (tl r1)
                     in if ip = [] \<and> fp = [] then NaN
                        else Fin (scale10 (of_nat (digits_val ip)
                                           + of_nat (digits_val fp) / 10 ^ length fp)
                                          (exponent_part r2)))
               else if ip = [] then NaN
               else Fin (scale10 (of_nat (digits_val ip)) (exponent_part r1))))"

definition parseFloat :: "string \<Rightarrow> jsnum" where
  "parseFloat s =
     (let t = dropWhile is_ws s
      in if startsWith t ''-'' then num_neg (unsigned_decimal (tl t))
         else if startsWith t ''+'' then unsigned_decimal (tl t)
         else unsigned_decimal t)"

text \<open>The decimal digits of a natural number, as a template literal prints an index.\<close>

fun nat_to_string :: "nat \<Rightarrow> string" where
  "nat_to_string n =
     (if n < 10 then [char_of (48 + n)]
      else nat_to_string (n div 10) @ [char_of (48 + n mod 10)])"

section \<open>The markdown table parser\<close>

datatype coltype = StringT | NumberT

record column =
  field :: string
  headerName :: string
  width :: "nat option"
  sortable :: "bool option"
  ctype :: "coltype option"

text \<open>
  A cell holds a string or a number. A row object is a finite mapping from keys to
  cells; \<open>row[k] = v\<close> is \<^const>\<open>AList.update\<close>, reading \<open>row[k]\<close> is \<^const>\<open>map_of\<close>
  (\<open>None\<close> is \<open>undefined\<close>).
\<close>

datatype cellval = Str string | Num jsnum

type_synonym row = "(string \<times> cellval) list"

record ParsedTable =
  title :: "string option"
  columns :: "column list"
  rows :: "row list"

text \<open>What a call can throw: a property read or a method call on \<open>undefined\<close>.\<close>

datatype js_error = TypeError

text \<open>\<open>xs[i]\<close>: \<open>undefined\<close> outside the array.\<close>

definition at_index :: "'a list \<Rightarrow> int \<Rightarrow> 'a option" where
  "at_index xs i = (if 0 \<le> i \<and> i < int (length xs) then Some (xs ! nat i) else None)"

text \<open>\<open>xs.findIndex(p)\<close>: the first index where \<open>p\<close> holds, or -1.\<close>

fun findIndex :: "('a \<Rightarrow> bool) \<Rightarrow> 'a list \<Rightarrow> int" where
  "findIndex p [] = - 1"
| "findIndex p (x # xs) =
     (if p x then 0 else (let i = findIndex p xs in if i = - 1 then - 1 else i + 1))"

text \<open>\<open>xs.slice(start)\<close>: a negative start counts from the end.\<close>

definition slice_from :: "int \<Rightarrow> 'a list \<Rightarrow> 'a list" where
  "slice_from start xs =
     (if start < 0 then drop (nat (int (length xs) + start)) xs else drop (nat start) xs)"

text \<open>\<open>line.split('|').map((cell) => cell.trim()).filter((cell) => cell)\<close>\<close>

definition split_cells :: "string \<Rightarrow> string list" where
  "split_cells line = filter truthy (map trim (split (CHR ''|'') line))"

definition is_lower_alnum :: "char \<Rightarrow> bool" where
  "is_lower_alnum c =
     (let n = (of_char c :: nat) in (97 \<le> n \<and> n \<le> 122) \<or> (48 \<le> n \<and> n \<le> 57))"

text \<open>\<open>.replace(/[^a-z0-9]+/g, '_')\<close>: every maximal run of other characters becomes one underscore.\<close>

function replace_non_alnum :: "string \<Rightarrow> string" where
  "replace_non_alnum [] = []"
| "replace_non_alnum (c # cs) =
     (if is_lower_alnum c then c # replace_non_alnum cs
      else CHR ''_'' # replace_non_alnum (dropWhile (\<lambda>d. \<not> is_lower_alnum d) cs))"
  by pat_completeness auto
termination
  by (relation "measure length") (auto simp: less_Suc_eq_le length_dropWhile_le)

text \<open>\<open>.replace(/^_|_$/g, '')\<close>: one underscore less at the front, and one less at the end.\<close>

definition strip_underscores :: "string \<Rightarrow> string" where
  "strip_underscores s =
     (let s1 = (if startsWith s ''_'' then tl s else s)
      in if s1 \<noteq> [] \<and> last s1 = CHR ''_'' then butlast s1 else s1)"

definition make_column :: "string \<Rightarrow> nat \<Rightarrow> column" where
  "make_column header index =
     (let fld = strip_underscores (replace_non_alnum (toLowerCase header));
          isNumericColumn =
            (includes_str (toLowerCase header) ''rank''
             \<or> includes_str (toLowerCase header) ''cutoff''
             \<or> includes_str (toLowerCase header) ''count''
             \<or> includes_str (toLowerCase header) ''total'')
      in \<lparr>field = (if truthy fld then fld else ''col_'' @ nat_to_string index),
          headerName = header,
          width = None,
          sortable = Some True,
          ctype = Some (if isNumericColumn then NumberT else StringT)\<rparr>)"

text \<open>\<open>xs.map((x, index) => f x index)\<close>\<close>

definition map_index :: "('a \<Rightarrow> nat \<Rightarrow> 'b) \<Rightarrow> 'a list \<Rightarrow> 'b list" where
  "map_index f xs = map (\<lambda>(i, x). f x i) (enumerate 0 xs)"

text \<open>The value stored for a cell of a column: the body of the \<open>forEach\<close> callback.\<close>

definition cell_value :: "column \<Rightarrow> string \<Rightarrow> cellval" where
  "cell_value col cell =
     (if ctype col = Some NumberT
      then (let numValue = parseFloat (filter (\<lambda>c. c \<noteq> CHR '','') cell)
            in if \<not> isNaN numValue then Num numValue else Str cell)
      else Str cell)"

text \<open>
  One call of the \<open>forEach\<close> callback on the row object built so far. A throw ends the
  loop, so an error is passed on.
\<close>

definition set_cell :: "column list \<Rightarrow> js_error + row \<Rightarrow> nat \<times> string \<Rightarrow> js_error + row" where
  "set_cell cols acc ic =
     (case acc of
        Inl e \<Rightarrow> Inl e
      | Inr r \<Rightarrow>
          (case ic of (index, cell) \<Rightarrow>
             if index < length cols
             then (case at_index cols (int index) of
                     None \<Rightarrow> Inl TypeError
                   | Some col \<Rightarrow> Inr (AList.update (field col) (cell_value col cell) r))
             else Inr r))"

definition make_row :: "column list \<Rightarrow> string \<Rightarrow> js_error + row" where
  "make_row cols line =
     (let cells = split_cells line
      in foldl (set_cell cols) (Inr []) (enumerate 0 cells))"

text \<open>
  The assignment \<open>row[column.field] = value\<close> for a column and the cell at its
  position.
\<close>

definition store_cell :: "row \<Rightarrow> column \<times> string \<Rightarrow> row" where
  "store_cell r cc = AList.update (field (fst cc)) (cell_value (fst cc) (snd cc)) r"

text \<open>\<open>lines.map(f)\<close> for a callback that may throw.\<close>

fun map_throwing :: "('a \<Rightarrow> js_error + 'b) \<Rightarrow> 'a list \<Rightarrow> js_error + 'b list" where
  "map_throwing f [] = Inr []"
| "map_throwing f (x # xs) =
     (case f x of
        Inl e \<Rightarrow> Inl e
      | Inr y \<Rightarrow> (case map_throwing f xs of Inl e \<Rightarrow> Inl e | Inr ys \<Rightarrow> Inr (y # ys)))"

text \<open>
  \<open>prevLine.replace(/^#+\s*/, '')\<close>, and \<open>.replace(/^\s*G\s*/, '')\<close> where \<open>G\<close> is the
  graduation cap glyph: its code units lie outside the modelled range, so on a modelled
  string the second pattern finds no match and the string stays as it is.
\<close>

definition strip_heading :: "string \<Rightarrow> string" where
  "strip_heading s =
     (if startsWith s ''#'' then dropWhile is_ws (dropWhile (\<lambda>c. c = CHR ''#'') s) else s)"

definition strip_glyph :: "string \<Rightarrow> string" where
  "strip_glyph s = s"

definition table_title :: "string list \<Rightarrow> int \<Rightarrow> js_error + string option" where
  "table_title lines tableStartIndex =
     (if tableStartIndex > 0
      then (case at_index lines (tableStartIndex - 1) of
              None \<Rightarrow> Inl TypeError
            | Some prevLine \<Rightarrow>
                if startsWith prevLine ''#''
                then Inr (Some (trim (strip_glyph (strip_heading prevLine))))
                else Inr None)
      else Inr None)"

definition parseMarkdownTable :: "string \<Rightarrow> js_error + ParsedTable option" where
  "parseMarkdownTable input =
     (let lines = filter (\<lambda>line. truthy (trim line)) (split (CHR 0x0A) input);
          tableStartIndex = findIndex (\<lambda>line. includes_str line ''|'') lines
      in if tableStartIndex = - 1 then Inr None
         else (case table_title lines tableStartIndex of
                 Inl e \<Rightarrow> Inl e
               | Inr ttl \<Rightarrow>
                   (let tableLines = filter (\<lambda>line. includes_str line ''|'')
                                       (slice_from tableStartIndex lines)
                    in if length tableLines < 3 then Inr None
                       else (case at_index tableLines 0 of
                               None \<Rightarrow> Inl TypeError
                             | Some headerLine \<Rightarrow>
                                 (let cols = map_index make_column (split_cells headerLine)
                                  in (case map_throwing (make_row cols)
                                             (slice_from 2 tableLines) of
                                        Inl e \<Rightarrow> Inl e
                                      | Inr rws \<Rightarrow>
                                          Inr (Some \<lparr>title = ttl, columns = cols,
                                                     rows = rws\<rparr>)))))))"

section \<open>Detecting a table with a regular expression\<close>

text \<open>
  The character classes and the operators that the pattern of \<open>hasMarkdownTable\<close> uses.
  \<open>r.test(s)\<close> on a pattern without anchors asks whether some substring of \<open>s\<close> matches;
  the answer is computed with derivatives, one character at a time.
\<close>

datatype cclass = AnyChar | Lit char | NotNewline | Whitespace | SeparatorChar

fun class_has :: "cclass \<Rightarrow> char \<Rightarrow> bool" where
  "class_has AnyChar c = True"
| "class_has (Lit d) c = (c = d)"
| "class_has NotNewline c = (c \<noteq> CHR 0x0A)"
| "class_has Whitespace c = is_ws c"
| "class_has SeparatorChar c = (is_ws c \<or> c = CHR '':'' \<or> c = CHR ''-'')"

datatype regex =
    Nothing
  | Epsilon
  | Class cclass
  | Concat regex regex
  | Union regex regex
  | Repeat regex

fun nullable :: "regex \<Rightarrow> bool" where
  "nullable Nothing = False"
| "nullable Epsilon = True"
| "nullable (Class k) = False"
| "nullable (Concat r s) = (nullable r \<and> nullable s)"
| "nullable (Union r s) = (nullable r \<or> nullable s)"
| "nullable (Repeat r) = True"

fun derivative :: "regex \<Rightarrow> char \<Rightarrow> regex" where
  "derivative Nothing c = Nothing"
| "derivative Epsilon c = Nothing"
| "derivative (Class k) c = (if class_has k c then Epsilon else Nothing)"
| "derivative (Concat r s) c =
     (if nullable r then Union (Concat (derivative r c) s) (derivative s c)
      else Concat (derivative r c) s)"
| "derivative (Union r s) c = Union (derivative r c) (derivative s c)"
| "derivative (Repeat r) c = Concat (derivative r c) (Repeat r)"

definition one_or_more :: "regex \<Rightarrow> regex" where
  "one_or_more r = Concat r (Repeat r)"

definition regex_test :: "regex \<Rightarrow> string \<Rightarrow> bool" where
  "regex_test r s =
     nullable (foldl derivative
                 (Concat (Repeat (Class AnyChar)) (Concat r (Repeat (Class AnyChar)))) s)"

text \<open>\<open>/\|[^\n]+\|\s*\n\|[\s:-]+\|/\<close>\<close>

definition tablePattern :: regex where
  "tablePattern =
     Concat (Class (Lit (CHR ''|'')))
       (Concat (one_or_more (Class NotNewline))
          (Concat (Class (Lit (CHR ''|'')))
             (Concat (Repeat (Class Whitespace))
                (Concat (Class (Lit (CHR 0x0A)))
                   (Concat (Class (Lit (CHR ''|'')))
                      (Concat (one_or_more (Class SeparatorChar))
                         (Class (Lit (CHR ''|'')))))))))"

definition hasMarkdownTable :: "string \<Rightarrow> bool" where
  "hasMarkdownTable input = regex_test tablePattern input"

text \<open>
  A sufficient syntactic condition for a pattern to match no string without a pipe.
\<close>

fun needs_pipe :: "regex \<Rightarrow> bool" where
  "needs_pipe Nothing = True"
| "needs_pipe Epsilon = False"
| "needs_pipe (Class k) = (k = Lit (CHR ''|''))"
| "needs_pipe (Concat r s) = (needs_pipe r \<or> needs_pipe s)"
| "needs_pipe (Union r s) = (needs_pipe r \<and> needs_pipe s)"
| "needs_pipe (Repeat r) = False"

section \<open>Splitting a message into text and table parts\<close>

datatype part_type = TextPart | TablePart

record ContentPart =
  part_type :: part_type
  part_content :: string

record current_part =
  cur_type :: part_type
  cur_lines :: "string list"

text \<open>\<open>if (currentPart) parts.push({type, content: lines.join('\n')})\<close>\<close>

definition push_part :: "ContentPart list \<Rightarrow> current_part option \<Rightarrow> ContentPart list" where
  "push_part parts currentPart =
     (case currentPart of
        None \<Rightarrow> parts
      | Some cp \<Rightarrow>
          parts @ [\<lparr>part_type = cur_type cp,
                     part_content = join [CHR 0x0A] (cur_lines cp)\<rparr>])"

text \<open>The body of the loop over the lines, on \<open>(parts, currentPart, inTable)\<close>.\<close>

definition split_step ::
  "ContentPart list \<times> current_part option \<times> bool \<Rightarrow> string
   \<Rightarrow> ContentPart list \<times> current_part option \<times> bool" where
  "split_step st line =
     (case st of (parts, currentPart, inTable) \<Rightarrow>
        (let isTableLine = startsWith (trim line) ''|''
         in if isTableLine \<and> \<not> inTable
            then (push_part parts currentPart,
                  Some \<lparr>cur_type = TablePart, cur_lines = [line]\<rparr>, True)
            else if \<not> isTableLine \<and> inTable
            then (push_part parts currentPart,
                  Some \<lparr>cur_type = TextPart, cur_lines = [line]\<rparr>, False)
            else (case currentPart of
                    None \<Rightarrow> (parts, Some \<lparr>cur_type = TextPart, cur_lines = [line]\<rparr>, inTable)
                  | Some cp \<Rightarrow>
                      (parts, Some (cp\<lparr>cur_lines := cur_lines cp @ [line]\<rparr>), inTable))))"

definition splitContentWithTables :: "string \<Rightarrow> ContentPart list" where
  "splitContentWithTables input =
     (case foldl split_step ([], None, False) (split (CHR 0x0A) input) of
        (parts, currentPart, inTable) \<Rightarrow>
          filter (\<lambda>part. truthy (trim (part_content part))) (push_part parts currentPart))"

section \<open>Highlight rules\<close>

datatype color = Success | Warning | ErrorColor

record HighlightRule =
  rule_column :: string
  threshold :: jsnum
  color :: color

definition getHighlightRules :: "column list \<Rightarrow> HighlightRule list" where
  "getHighlightRules cols =
     foldl (\<lambda>rules col.
              if ctype col = Some NumberT
                 \<and> (includes_str (field col) ''cutoff'' \<or> includes_str (field col) ''rank'')
              then rules @ [\<lparr>rule_column = field col, threshold = Fin 5000, color = Success\<rparr>]
              else rules)
       [] cols"

section \<open>The table component\<close>

text \<open>
  Two functions of the JavaScript engine are taken as parameters: \<open>localeCompare\<close>,
  whose order depends on the locale, and the printing of a number that is not an integer
  below \<open>10^21\<close> in size (for an integer in that range the engine prints its decimal
  digits).
\<close>

record host =
  localeCompare :: "string \<Rightarrow> string \<Rightarrow> int"
  fractionToString :: "rat \<Rightarrow> string"



definition numToString :: "host \<Rightarrow> jsnum \<Rightarrow> string" where
  "numToString h n =
     (case n of
        NaN \<Rightarrow> ''NaN''
      | PosInf \<Rightarrow> ''Infinity''
      | NegInf \<Rightarrow> ''-Infinity''
      | Fin r \<Rightarrow>
          if of_int \<lfloor>r\<rfloor> = r \<and> \<bar>r\<bar> < 10 ^ 21
          then (if r < 0 then ''-'' else []) @ nat_to_string (nat \<bar>\<lfloor>r\<rfloor>\<bar>)
          else fractionToString h r)"

text \<open>\<open>String(val)\<close> for what \<open>row[key]\<close> gives.\<close>

definition to_String :: "host \<Rightarrow> cellval option \<Rightarrow> string" where
  "to_String h val =
     (case val of
        None \<Rightarrow> ''undefined''
      | Some (Str s) \<Rightarrow> s
      | Some (Num n) \<Rightarrow> numToString h n)"

datatype direction = Asc | Desc

record table_state =
  sortColumn :: string
  sortDirection :: direction
  searchQuery :: string
  showSearch :: bool


text \<open>The comparator given to \<open>sort\<close>.\<close>

definition compareRows :: "host \<Rightarrow> string \<Rightarrow> direction \<Rightarrow> row \<Rightarrow> row \<Rightarrow> jsnum" where
  "compareRows h sortCol dir a b =
     (let aVal = map_of a sortCol; bVal = map_of b sortCol
      in (case (aVal, bVal) of
            (Some (Num x), Some (Num y)) \<Rightarrow>
              if dir = Asc then num_sub x y else num_sub y x
          | _ \<Rightarrow>
              (let aStr = toLowerCase (to_String h aVal);
                   bStr = toLowerCase (to_String h bVal)
               in Fin (of_int (if dir = Asc then localeCompare h aStr bStr
                               else localeCompare h bStr aStr)))))"

text \<open>
  \<open>Array.prototype.sort\<close> is stable and moves \<open>b\<close> before \<open>a\<close> only when the comparator
  is positive on \<open>(a, b)\<close> (a \<open>NaN\<close> counts as 0). With a consistent comparator every
  stable sort returns the same array; the model inserts from the right.
\<close>

fun insert_sorted :: "('a \<Rightarrow> 'a \<Rightarrow> jsnum) \<Rightarrow> 'a \<Rightarrow> 'a list \<Rightarrow> 'a list" where
  "insert_sorted cmp x [] = [x]"
| "insert_sorted cmp x (y # ys) =
     (if num_gt (cmp x y) (Fin 0) then y # insert_sorted cmp x ys else x # y # ys)"

definition array_sort :: "('a \<Rightarrow> 'a \<Rightarrow> jsnum) \<Rightarrow> 'a list \<Rightarrow> 'a list" where
  "array_sort cmp xs = foldr (insert_sorted cmp) xs []"

definition sortedRows :: "host \<Rightarrow> table_state \<Rightarrow> row list \<Rightarrow> row list" where
  "sortedRows h st rws =
     (if \<not> truthy (sortColumn st) then rws
      else array_sort (compareRows h (sortColumn st) (sortDirection st)) rws)"

definition filteredRows :: "host \<Rightarrow> table_state \<Rightarrow> row list \<Rightarrow> row list" where
  "filteredRows h st rws =
     (if \<not> truthy (trim (searchQuery st)) then sortedRows h st rws
      else (let query = toLowerCase (searchQuery st)
            in filter (\<lambda>r. list_ex (\<lambda>val. includes_str (toLowerCase (to_String h (Some val))) query)
                                (map snd r))
                 (sortedRows h st rws)))"



text \<open>\<open>.replace(/"/g, '""')\<close>\<close>

definition double_quotes :: "string \<Rightarrow> string" where
  "double_quotes s = concat (map (\<lambda>c. if c = CHR 0x22 then [CHR 0x22, CHR 0x22] else [c]) s)"

definition csv_cell :: "host \<Rightarrow> row \<Rightarrow> column \<Rightarrow> string" where
  "csv_cell h r col =
     (let val = map_of r (field col); escaped = double_quotes (to_String h val)
      in [CHR 0x22] @ escaped @ [CHR 0x22])"

text \<open>The text that \<open>handleExport\<close> puts into the downloaded file.\<close>

definition csvContent :: "host \<Rightarrow> column list \<Rightarrow> table_state \<Rightarrow> row list \<Rightarrow> string" where
  "csvContent h cols st rws =
     join [CHR 0x0A]
       (join '','' (map headerName cols)
        # map (\<lambda>r. join '','' (map (csv_cell h r) cols)) (filteredRows h st rws))"

fun num_times2 :: "jsnum \<Rightarrow> jsnum" where
  "num_times2 (Fin r) = Fin (r * 2)"
| "num_times2 n = n"

definition getCellColor :: "HighlightRule list \<Rightarrow> string \<Rightarrow> cellval option \<Rightarrow> string option" where
  "getCellColor highlightRules col val =
     (case find (\<lambda>r. rule_column r = col) highlightRules of
        None \<Rightarrow> None
      | Some rule \<Rightarrow>
          (case val of
             Some (Num v) \<Rightarrow>
               if num_le v (threshold rule) \<and> color rule = Success then Some ''#d4edda''
               else if num_gt v (threshold rule) \<and> num_le v (num_times2 (threshold rule))
                       \<and> color rule = Warning then Some ''#fff3cd''
               else if num_gt v (num_times2 (threshold rule)) \<and> color rule = ErrorColor
               then Some ''#f8d7da''
               else None
           | _ \<Rightarrow> None))"

datatype icon = EmojiEvents | School | TrendingUp

record badge =
  badge_icon :: icon
  badge_color :: string

definition getRankBadge :: "jsnum \<Rightarrow> badge option" where
  "getRankBadge rank =
     (if num_le rank (Fin 1000) then Some \<lparr>badge_icon = EmojiEvents, badge_color = ''gold''\<rparr>
      else if num_le rank (Fin 5000) then Some \<lparr>badge_icon = School, badge_color = ''silver''\<rparr>
      else if num_le rank (Fin 20000) then Some \<lparr>badge_icon = TrendingUp, badge_color = ''bronze''\<rparr>
      else None)"

text \<open>
  What the body of \<open>columns.map\<close> computes for a cell before drawing it: the background
  colour and the badge.
\<close>

definition cell_decoration ::
  "HighlightRule list \<Rightarrow> column \<Rightarrow> row \<Rightarrow> string option \<times> badge option" where
  "cell_decoration highlightRules col r =
     (let val = map_of r (field col);
          bgColor = getCellColor highlightRules (field col) val;
          isRankColumn = (includes_str (toLowerCase (field col)) ''cutoff''
                          \<or> includes_str (toLowerCase (field col)) ''rank'');
          rankBadge = (case val of
                         Some (Num v) \<Rightarrow> if isRankColumn then getRankBadge v else None
                       | _ \<Rightarrow> None)
      in (bgColor, rankBadge))"

section \<open>Lemmas on the chat page\<close>

text \<open>
  In a new session, chunks that arrive right after the welcome event are appended to
  the welcome message, whatever the texts are, and the completion changes nothing.
\<close>

lemma chunks_after_welcome:
  "messages (run_events False initial_state
     [(t0, Welcome greeting), (t1, ResponseChunk c1), (t2, ResponseChunk c2),
      (t3, ResponseChunk c3), (t4, ResponseComplete mid full_content)])
   = [\<lparr>message_id = ''welcome'', role = Assistant, content = greeting @ c1 @ c2 @ c3,
       timestamp = t0\<rparr>]"
  by (simp add: run_events_def initial_state_def response_chunk_def response_complete_def
      lastMessage_def)

text \<open>
  When the user has sent a message after the welcome event, the first chunk opens a
  \<open>streaming\<close> message, the next chunks are appended to it, and the completion replaces
  its id and its content by the server's.
\<close>

lemma chunks_after_user_message:
  "messages (run_events False
     (handleSendMessage True True millis t1
        (run_events False initial_state [(t0, Welcome greeting)]) question)
     [(t2, ResponseChunk c1), (t3, ResponseChunk c2), (t4, ResponseChunk c3),
      (t5, ResponseComplete mid full_content)])
   = [\<lparr>message_id = ''welcome'', role = Assistant, content = greeting, timestamp = t0\<rparr>,
      \<lparr>message_id = ''user-'' @ millis, role = User, content = question, timestamp = t1\<rparr>,
      \<lparr>message_id = ''final-'' @ mid, role = Assistant, content = full_content,
        timestamp = t2\<rparr>]"
  by (simp add: run_events_def initial_state_def handleSendMessage_def response_chunk_def
      response_complete_def lastMessage_def)

section \<open>Lemmas on strings\<close>

lemma split_nonempty: "split c s \<noteq> []"
  by (induction s) (auto split: list.splits)

lemma join_split: "join [c] (split c s) = s"
proof (induction s)
  case Nil
  then show ?case by simp
next
  case (Cons x xs)
  obtain p ps where sp: "split c xs = p # ps"
    using split_nonempty [of c xs] by (cases "split c xs") auto
  show ?case
  proof (cases "x = c")
    case True
    with Cons sp show ?thesis by simp
  next
    case False
    with Cons sp show ?thesis by (cases ps) auto
  qed
qed

lemma set_split: "l \<in> set (split c s) \<Longrightarrow> set l \<subseteq> set s"
proof (induction s arbitrary: l)
  case Nil
  then show ?case by simp
next
  case (Cons x xs)
  obtain p ps where sp: "split c xs = p # ps"
    using split_nonempty [of c xs] by (cases "split c xs") auto
  show ?case
  proof (cases "x = c")
    case True
    with Cons.prems Cons.IH show ?thesis by auto
  next
    case False
    with Cons.prems sp have "l = x # p \<or> l \<in> set ps" by simp
    moreover have "set p \<subseteq> set xs" using Cons.IH [of p] sp by simp
    moreover have "l \<in> set ps \<Longrightarrow> set l \<subseteq> set xs" using Cons.IH [of l] sp by simp
    ultimately show ?thesis by auto
  qed
qed

lemma set_trim: "set (trim s) \<subseteq> set s"
proof -
  have "set (trim s) \<subseteq> set (dropWhile is_ws s)"
    unfolding trim_def using set_dropWhileD [of _ is_ws "rev (dropWhile is_ws s)"] by auto
  also have "\<dots> \<subseteq> set s"
    using set_dropWhileD [of _ is_ws s] by auto
  finally show ?thesis .
qed

lemma startsWith_Cons_set: "startsWith s (p # ps) \<Longrightarrow> p \<in> set s"
  by (cases s) auto

lemma includes_str_set: "includes_str s [p] \<Longrightarrow> p \<in> set s"
  by (induction s) (auto dest: startsWith_Cons_set)

lemma startsWith_map: "startsWith s p \<Longrightarrow> startsWith (map f s) (map f p)"
  by (induction s p rule: startsWith.induct) simp_all

lemma includes_str_map: "includes_str s p \<Longrightarrow> includes_str (map f s) (map f p)"
proof (induction s)
  case Nil
  then show ?case by simp
next
  case (Cons c cs)
  from Cons.prems have "startsWith (c # cs) p \<or> includes_str cs p" by simp
  then show ?case
  proof
    assume "startsWith (c # cs) p"
    then have "startsWith (map f (c # cs)) (map f p)" by (rule startsWith_map)
    then show ?thesis by simp
  next
    assume "includes_str cs p"
    with Cons.IH show ?thesis by simp
  qed
qed

lemma lower_char_lowercase:
  "97 \<le> (of_char c :: nat) \<Longrightarrow> (of_char c :: nat) \<le> 122 \<Longrightarrow> lower_char c = c"
  by (simp add: lower_char_def)

lemma includes_str_toLowerCase_cutoff:
  "includes_str s ''cutoff'' \<Longrightarrow> includes_str (toLowerCase s) ''cutoff''"
  using includes_str_map [of s "''cutoff''" lower_char]
  by (simp add: toLowerCase_def lower_char_lowercase)

lemma includes_str_toLowerCase_rank:
  "includes_str s ''rank'' \<Longrightarrow> includes_str (toLowerCase s) ''rank''"
  using includes_str_map [of s "''rank''" lower_char]
  by (simp add: toLowerCase_def lower_char_lowercase)

section \<open>Lemmas on the table pattern\<close>

lemma needs_pipe_not_nullable: "needs_pipe r \<Longrightarrow> \<not> nullable r"
  by (induction r) auto

lemma needs_pipe_derivative:
  "needs_pipe r \<Longrightarrow> c \<noteq> CHR ''|'' \<Longrightarrow> needs_pipe (derivative r c)"
proof (induction r)
  case (Concat r s)
  show ?case
  proof (cases "nullable r")
    case True
    then have "\<not> needs_pipe r" using needs_pipe_not_nullable by blast
    with Concat True show ?thesis by simp
  next
    case False
    with Concat show ?thesis by auto
  qed
qed simp_all

lemma needs_pipe_foldl:
  "needs_pipe r \<Longrightarrow> CHR ''|'' \<notin> set s \<Longrightarrow> needs_pipe (foldl derivative r s)"
proof (induction s arbitrary: r)
  case Nil
  then show ?case by simp
next
  case (Cons c s)
  from Cons.prems have "c \<noteq> CHR ''|''" by auto
  with Cons.prems have "needs_pipe (derivative r c)" by (blast intro: needs_pipe_derivative)
  with Cons show ?case by simp
qed

lemma needs_pipe_tablePattern:
  "needs_pipe (Concat (Repeat (Class AnyChar)) (Concat tablePattern (Repeat (Class AnyChar))))"
  by (simp add: tablePattern_def)

lemma no_pipe_no_table: "CHR ''|'' \<notin> set input \<Longrightarrow> \<not> hasMarkdownTable input"
  unfolding hasMarkdownTable_def regex_test_def
  using needs_pipe_not_nullable needs_pipe_foldl needs_pipe_tablePattern by blast

section \<open>Lemmas on the table parser\<close>

lemma set_cell_in_range:
  "n < length cols \<Longrightarrow> set_cell cols (Inr r) (n, cell) = Inr (store_cell r (cols ! n, cell))"
  by (simp add: set_cell_def at_index_def store_cell_def)

lemma set_cell_out_of_range:
  "\<not> n < length cols \<Longrightarrow> set_cell cols (Inr r) (n, cell) = Inr r"
  by (simp add: set_cell_def)

lemma foldl_set_cell:
  "foldl (set_cell cols) (Inr r) (enumerate n cells)
   = Inr (foldl store_cell r (zip (drop n cols) cells))"
proof (induction cells arbitrary: n r)
  case Nil
  then show ?case by simp
next
  case (Cons cell cells)
  show ?case
  proof (cases "n < length cols")
    case True
    then have d: "drop n cols = cols ! n # drop (Suc n) cols"
      by (simp add: Cons_nth_drop_Suc)
    show ?thesis
      using True Cons.IH [of "store_cell r (cols ! n, cell)" "Suc n"]
      by (simp add: set_cell_in_range d)
  next
    case False
    then show ?thesis
      using Cons.IH [of r "Suc n"]
      by (simp add: set_cell_out_of_range)
  qed
qed

lemma make_row_zip:
  "make_row cols line = Inr (foldl store_cell [] (zip cols (split_cells line)))"
  using foldl_set_cell [of cols "[]" 0 "split_cells line"]
  by (simp add: make_row_def Let_def)

lemma map_throwing_total:
  "(\<And>x. f x = Inr (g x)) \<Longrightarrow> map_throwing f xs = Inr (map g xs)"
  by (induction xs) simp_all

lemma map_throwing_make_row:
  "map_throwing (make_row cols) xs
   = Inr (map (\<lambda>l. foldl store_cell [] (zip cols (split_cells l))) xs)"
  by (rule map_throwing_total) (rule make_row_zip)

lemma findIndex_range: "- 1 \<le> findIndex p xs \<and> findIndex p xs < int (length xs)"
  by (induction xs) (auto simp: Let_def)

lemma findIndex_none: "\<forall>x \<in> set xs. \<not> p x \<Longrightarrow> findIndex p xs = - 1"
  by (induction xs) simp_all

lemma table_title_total:
  "i < int (length ls) \<Longrightarrow> \<exists>t. table_title ls i = Inr t"
  by (auto simp: table_title_def at_index_def)

lemma parseMarkdownTable_returns: "\<exists>res. parseMarkdownTable input = Inr res"
proof -
  define ls where "ls = filter (\<lambda>line. truthy (trim line)) (split (CHR 0x0A) input)"
  define i where "i = findIndex (\<lambda>line. includes_str line ''|'') ls"
  have "i < int (length ls)" using findIndex_range [of _ ls] by (simp add: i_def)
  then obtain t where t: "table_title ls i = Inr t" using table_title_total by blast
  show ?thesis
    unfolding parseMarkdownTable_def Let_def ls_def [symmetric] i_def [symmetric]
    by (simp add: t map_throwing_make_row at_index_def)
qed

lemma no_pipe_parse_null:
  assumes "CHR ''|'' \<notin> set input"
  shows "parseMarkdownTable input = Inr None"
proof -
  have "\<not> includes_str line ''|''" if "line \<in> set (split (CHR 0x0A) input)" for line
    using that assms set_split [of line "CHR 0x0A" input] includes_str_set [of line "CHR ''|''"]
    by auto
  then have "findIndex (\<lambda>line. includes_str line ''|'')
               (filter (\<lambda>line. truthy (trim line)) (split (CHR 0x0A) input)) = - 1"
    by (intro findIndex_none) simp
  then show ?thesis
    by (simp add: parseMarkdownTable_def)
qed

lemma keys_foldl_store_cell:
  "fst ` set (foldl store_cell r zs) = fst ` set r \<union> (\<lambda>z. field (fst z)) ` set zs"
  by (induction zs arbitrary: r) (auto simp: store_cell_def dom_update)

lemma lookup_foldl_store_cell_other:
  "k \<notin> (\<lambda>z. field (fst z)) ` set zs \<Longrightarrow> map_of (foldl store_cell r zs) k = map_of r k"
  by (induction zs arbitrary: r) (simp_all add: store_cell_def update_conv')


lemma lookup_foldl_store_cell_at:
  assumes "distinct (map (\<lambda>z. field (fst z)) zs)" and "i < length zs"
  shows "map_of (foldl store_cell r zs) (field (fst (zs ! i)))
         = Some (cell_value (fst (zs ! i)) (snd (zs ! i)))"
  using assms
proof (induction zs arbitrary: r i)
  case Nil
  then show ?case by simp
next
  case (Cons z zs)
  show ?case
  proof (cases i)
    case 0
    from Cons.prems have "field (fst z) \<notin> (\<lambda>z. field (fst z)) ` set zs" by simp
    then have "map_of (foldl store_cell (store_cell r z) zs) (field (fst z))
               = map_of (store_cell r z) (field (fst z))"
      by (rule lookup_foldl_store_cell_other)
    moreover have "map_of (store_cell r z) (field (fst z)) = Some (cell_value (fst z) (snd z))"
      by (simp add: store_cell_def update_conv')
    ultimately show ?thesis using 0 by simp
  next
    case (Suc j)
    with Cons.prems Cons.IH [of j "store_cell r z"] show ?thesis by simp
  qed
qed



lemma zip_take_left_length: "zip xs (take (length xs) ys) = zip xs ys"
proof (induction xs arbitrary: ys)
  case Nil
  then show ?case by simp
next
  case (Cons x xs)
  then show ?case by (cases ys) simp_all
qed

lemma zip_field_list:
  "map (\<lambda>z. field (fst z)) (zip cols cells) = map field (take (length cells) cols)"
proof (induction cols arbitrary: cells)
  case Nil
  then show ?case by simp
next
  case (Cons c cols)
  then show ?case by (cases cells) simp_all
qed

lemma zip_field_keys:
  "(\<lambda>z. field (fst z)) ` set (zip cols cells) = field ` set (take (length cells) cols)"
proof -
  have "(\<lambda>z. field (fst z)) ` set (zip cols cells)
        = set (map (\<lambda>z. field (fst z)) (zip cols cells))"
    by simp
  also have "\<dots> = set (map field (take (length cells) cols))"
    by (simp only: zip_field_list)
  finally show ?thesis by simp
qed

lemma distinct_field_beyond:
  assumes "distinct (map field cols)" and "i < length cols" and "n \<le> i"
  shows "field (cols ! i) \<notin> field ` set (take n cols)"
proof
  assume "field (cols ! i) \<in> field ` set (take n cols)"
  then obtain j where j: "j < n" "j < length cols" and eq: "field (cols ! j) = field (cols ! i)"
    by (auto simp: in_set_conv_nth)
  then have "map field cols ! j = map field cols ! i"
    using assms(2) by simp
  moreover have "j < length (map field cols)" and "i < length (map field cols)"
    using j assms(2) by simp_all
  ultimately have "j = i"
    using assms(1) nth_eq_iff_index_eq by blast
  with j assms(3) show False by simp
qed

section \<open>Lemmas on the splitter\<close>

lemma foldl_split_step_text:
  assumes "\<forall>line \<in> set ls. \<not> startsWith (trim line) ''|''"
  shows "foldl split_step ([], Some \<lparr>cur_type = TextPart, cur_lines = acc\<rparr>, False) ls
         = ([], Some \<lparr>cur_type = TextPart, cur_lines = acc @ ls\<rparr>, False)"
  using assms by (induction ls arbitrary: acc) (simp_all add: split_step_def)

lemma split_text_lines:
  assumes "\<forall>line \<in> set (split (CHR 0x0A) input). \<not> startsWith (trim line) ''|''"
  shows "splitContentWithTables input
         = (if truthy (trim input) then [\<lparr>part_type = TextPart, part_content = input\<rparr>] else [])"
proof -
  obtain l ls where sp: "split (CHR 0x0A) input = l # ls"
    using split_nonempty [of "CHR 0x0A" input] by (cases "split (CHR 0x0A) input") auto
  from assms sp have first: "\<not> startsWith (trim l) ''|''"
    and rest: "\<forall>line \<in> set ls. \<not> startsWith (trim line) ''|''"
    by simp_all
  have "foldl split_step ([], None, False) (l # ls)
        = ([], Some \<lparr>cur_type = TextPart, cur_lines = l # ls\<rparr>, False)"
    using first foldl_split_step_text [OF rest, of "[l]"] by (simp add: split_step_def)
  moreover have "join [CHR 0x0A] (l # ls) = input"
    using join_split [of "CHR 0x0A" input] sp by simp
  ultimately show ?thesis
    by (simp add: splitContentWithTables_def sp push_part_def)
qed

lemma no_pipe_split_text:
  assumes "CHR ''|'' \<notin> set input"
  shows "list_all (\<lambda>p. part_type p = TextPart) (splitContentWithTables input)"
proof -
  have "\<not> startsWith (trim line) ''|''" if "line \<in> set (split (CHR 0x0A) input)" for line
    using that assms set_split [of line "CHR 0x0A" input] set_trim [of line]
      startsWith_Cons_set [of "trim line" "CHR ''|''" "[]"]
    by auto
  then show ?thesis
    by (simp add: split_text_lines)
qed

section \<open>Lemmas on reconnecting\<close>









section \<open>Properties of the chat page\<close>

text \<open>
  C1. The claim: from the initial state of a new session, the events welcome, thinking
  (twice), response chunk (three times), tool call (completed) and response complete
  leave exactly one assistant message whose content is the \<open>full_content\<close> of the last
  event, and no thinking step.

  On the code the claim fails. The welcome message is an assistant message whose id
  does not start with \<open>final-\<close>, so the first chunk is appended to it instead of opening
  a \<open>streaming\<close> message; the completion handler then looks for the id \<open>streaming\<close>,
  finds \<open>welcome\<close> and leaves the list alone. With the greeting \<open>Hello\<close>, the chunks
  \<open>a\<close>, \<open>b\<close>, \<open>c\<close> and the full content \<open>abc\<close>, the list ends with the single message
  \<open>Helloabc\<close>, and no message holds \<open>abc\<close>. (After a user message the same
  events do end with the full content: lemma \<open>chunks_after_user_message\<close>.)
\<close>

theorem chunks_merge_into_welcome:
  "run_events False initial_state
     [(''t0'', Welcome ''Hello''),
      (''t1'', Thinking ''Searching colleges'' ''t1''),
      (''t2'', Thinking ''Reading cutoffs'' ''t2''),
      (''t3'', ResponseChunk ''a''),
      (''t4'', ResponseChunk ''b''),
      (''t5'', ResponseChunk ''c''),
      (''t6'', ToolCall Completed),
      (''t7'', ResponseComplete ''m1'' ''abc'')]
   = \<lparr>messages = [\<lparr>message_id = ''welcome'', role = Assistant, content = ''Helloabc'',
                     timestamp = ''t0''\<rparr>],
      thinkingSteps = [], isProcessing = False, isConnected = True, error = []\<rparr>
   \<and> filter (\<lambda>m. role m = Assistant \<and> content m = ''abc'')
        (messages (run_events False initial_state
           [(''t0'', Welcome ''Hello''),
            (''t1'', Thinking ''Searching colleges'' ''t1''),
            (''t2'', Thinking ''Reading cutoffs'' ''t2''),
            (''t3'', ResponseChunk ''a''),
            (''t4'', ResponseChunk ''b''),
            (''t5'', ResponseChunk ''c''),
            (''t6'', ToolCall Completed),
            (''t7'', ResponseComplete ''m1'' ''abc'')])) = []"
  by (simp add: run_events_def initial_state_def response_chunk_def response_complete_def
      lastMessage_def mark_last_completed_def)

text \<open>
  C10. An \<open>error\<close> event leaves the message list as it was: the handler sets the error
  string (the event's message, or a fixed text when the message is missing or empty),
  clears the processing flag and empties the list of thinking steps. The connection flag
  is untouched as well.
\<close>

theorem error_event_keeps_messages:
  "messages (onMessage isExistingSession now s (ErrorEvent msg)) = messages s
   \<and> isProcessing (onMessage isExistingSession now s (ErrorEvent msg)) = False
   \<and> thinkingSteps (onMessage isExistingSession now s (ErrorEvent msg)) = []
   \<and> isConnected (onMessage isExistingSession now s (ErrorEvent msg)) = isConnected s
   \<and> error (onMessage isExistingSession now s (ErrorEvent (Some (c # cs)))) = c # cs
   \<and> error (onMessage isExistingSession now s (ErrorEvent (Some []))) = ''An error occurred''
   \<and> error (onMessage isExistingSession now s (ErrorEvent None)) = ''An error occurred''"
  by (simp add: truthy_def)

section \<open>Properties of the chat service\<close>




section \<open>Properties of the table parser\<close>

text \<open>
  C2. The parser functions are total. \<open>parseMarkdownTable\<close> is the one with operations
  that can throw (a method call on an array element that is not there), and it returns
  a value on every input. The other three have no such operation. On an input without
  any pipe, \<open>parseMarkdownTable\<close> returns \<open>null\<close>, \<open>hasMarkdownTable\<close> is false and
  \<open>splitContentWithTables\<close> returns text parts only; \<open>getHighlightRules\<close> of no column is
  the empty list. On the malformed table of two pipe lines without a separator line,
  \<open>parseMarkdownTable\<close> returns \<open>null\<close> and \<open>hasMarkdownTable\<close> is false.
\<close>

theorem parser_functions_total:
  "(\<exists>res. parseMarkdownTable input = Inr res)
   \<and> (CHR ''|'' \<notin> set input \<longrightarrow>
        parseMarkdownTable input = Inr None
        \<and> hasMarkdownTable input = False
        \<and> list_all (\<lambda>p. part_type p = TextPart) (splitContentWithTables input))
   \<and> getHighlightRules [] = []
   \<and> parseMarkdownTable (''| a |'' @ [CHR 0x0A] @ ''| b |'') = Inr None
   \<and> hasMarkdownTable (''| a |'' @ [CHR 0x0A] @ ''| b |'') = False"
proof -
  have pipe_free: "parseMarkdownTable input = Inr None \<and> hasMarkdownTable input = False
      \<and> list_all (\<lambda>p. part_type p = TextPart) (splitContentWithTables input)"
    if "CHR ''|'' \<notin> set input"
    using that no_pipe_parse_null [of input] no_pipe_no_table [of input]
      no_pipe_split_text [of input]
    by simp
  have rules: "getHighlightRules [] = []"
    by (simp add: getHighlightRules_def)
  have malformed_parse: "parseMarkdownTable (''| a |'' @ [CHR 0x0A] @ ''| b |'') = Inr None"
    by (simp add: parseMarkdownTable_def trim_def is_ws_def truthy_def table_title_def
        slice_from_def at_index_def Let_def)
  have malformed_test: "hasMarkdownTable (''| a |'' @ [CHR 0x0A] @ ''| b |'') = False"
    by (simp add: hasMarkdownTable_def regex_test_def tablePattern_def one_or_more_def
        is_ws_def)
  from parseMarkdownTable_returns [of input] pipe_free rules malformed_parse malformed_test
  show ?thesis
    by (intro conjI impI) blast+
qed

theorem parser_functions_total_witness:
  "CHR ''|'' \<notin> set ''no table''
   \<and> parseMarkdownTable ''no table'' = Inr None
   \<and> hasMarkdownTable ''no table'' = False
   \<and> list_all (\<lambda>p. part_type p = TextPart) (splitContentWithTables ''no table'')"
proof -
  have free: "CHR ''|'' \<notin> set ''no table''"
    by simp
  from parser_functions_total [of "''no table''"] free
  have "parseMarkdownTable ''no table'' = Inr None
        \<and> hasMarkdownTable ''no table'' = False
        \<and> list_all (\<lambda>p. part_type p = TextPart) (splitContentWithTables ''no table'')"
    by blast
  with free show ?thesis
    by (intro conjI) blast+
qed



text \<open>
  C4, as claimed: only empty edge cells are dropped from a row line. The code drops
  every empty piece: in \<open>| 1 || 3 |\<close> the empty piece between the two inner pipes goes
  as well, and the 3 moves into the second position.
\<close>

theorem interior_empty_cell_dropped:
  "map trim (split (CHR ''|'') ''| 1 || 3 |'') = [[], ''1'', [], ''3'', []]
   \<and> split_cells ''| 1 || 3 |'' = [''1'', ''3'']"
  by (simp add: split_cells_def trim_def is_ws_def truthy_def)

text \<open>
  C4, amended: for every column list and every row line, the cells are the pieces
  between pipes, trimmed, without any empty piece (edge or interior). Building the row
  never throws; it stores, from left to right, the value of each cell under the field of
  the column at the same position, so cells beyond the last column are not used. The
  keys of the row are exactly the fields of the columns that have a cell: a column
  without a cell adds no key, and nothing is filled in for it. When the fields are
  distinct, the row holds at each column's field the value of the cell at that position,
  or nothing if the cell is missing.
\<close>

theorem row_cells_zip_columns:
  "split_cells line = filter (\<lambda>cell. cell \<noteq> []) (map trim (split (CHR ''|'') line))
   \<and> make_row cols line = Inr (foldl store_cell [] (zip cols (split_cells line)))
   \<and> make_row cols line
     = Inr (foldl store_cell [] (zip cols (take (length cols) (split_cells line))))
   \<and> (\<exists>r. make_row cols line = Inr r
          \<and> fst ` set r = field ` set (take (length (split_cells line)) cols)
          \<and> (distinct (map field cols) \<and> i < length cols \<longrightarrow>
               map_of r (field (cols ! i))
               = (if i < length (split_cells line)
                  then Some (cell_value (cols ! i) (split_cells line ! i))
                  else None)))"
proof -
  define cells where "cells = split_cells line"
  define r where "r = foldl store_cell [] (zip cols cells)"
  have pieces: "split_cells line
                = filter (\<lambda>cell. cell \<noteq> []) (map trim (split (CHR ''|'') line))"
    by (simp add: split_cells_def truthy_def [abs_def])
  have built: "make_row cols line = Inr r"
    by (simp add: make_row_zip r_def cells_def)
  have extra: "zip cols (take (length cols) cells) = zip cols cells"
    by (rule zip_take_left_length)
  have keys: "fst ` set r = field ` set (take (length cells) cols)"
    by (simp add: r_def keys_foldl_store_cell zip_field_keys)
  have looked_up: "map_of r (field (cols ! i))
               = (if i < length cells then Some (cell_value (cols ! i) (cells ! i)) else None)"
    if d: "distinct (map field cols)" and i: "i < length cols"
  proof (cases "i < length cells")
    case True
    have "distinct (map (\<lambda>z. field (fst z)) (zip cols cells))"
      using d distinct_take [of "map field cols" "length cells"]
      by (simp add: zip_field_list take_map)
    moreover have "i < length (zip cols cells)" using True i by simp
    ultimately have "map_of r (field (fst (zip cols cells ! i)))
                     = Some (cell_value (fst (zip cols cells ! i)) (snd (zip cols cells ! i)))"
      unfolding r_def by (rule lookup_foldl_store_cell_at)
    with True i show ?thesis by simp
  next
    case False
    with d i have "field (cols ! i) \<notin> field ` set (take (length cells) cols)"
      by (intro distinct_field_beyond) simp_all
    then have "field (cols ! i) \<notin> (\<lambda>z. field (fst z)) ` set (zip cols cells)"
      by (simp add: zip_field_keys)
    then have "map_of r (field (cols ! i)) = map_of [] (field (cols ! i))"
      unfolding r_def by (rule lookup_foldl_store_cell_other)
    with False show ?thesis by simp
  qed
  from built keys looked_up
  have row: "\<exists>r. make_row cols line = Inr r
          \<and> fst ` set r = field ` set (take (length cells) cols)
          \<and> (distinct (map field cols) \<and> i < length cols \<longrightarrow>
               map_of r (field (cols ! i))
               = (if i < length cells
                  then Some (cell_value (cols ! i) (cells ! i))
                  else None))"
    by blast
  from pieces built extra row show ?thesis
    unfolding r_def cells_def by simp
qed

theorem row_cells_zip_columns_witness:
  "distinct (map field
     [\<lparr>field = ''a'', headerName = ''A'', width = None, sortable = Some True,
        ctype = Some StringT\<rparr>,
      \<lparr>field = ''b'', headerName = ''B'', width = None, sortable = Some True,
        ctype = Some StringT\<rparr>,
      \<lparr>field = ''c'', headerName = ''C'', width = None, sortable = Some True,
        ctype = Some StringT\<rparr>])
   \<and> make_row
        [\<lparr>field = ''a'', headerName = ''A'', width = None, sortable = Some True,
           ctype = Some StringT\<rparr>,
         \<lparr>field = ''b'', headerName = ''B'', width = None, sortable = Some True,
           ctype = Some StringT\<rparr>,
         \<lparr>field = ''c'', headerName = ''C'', width = None, sortable = Some True,
           ctype = Some StringT\<rparr>]
        ''| 1 || 3 |''
      = Inr [(''a'', Str ''1''), (''b'', Str ''3'')]
   \<and> (\<exists>r. make_row
        [\<lparr>field = ''a'', headerName = ''A'', width = None, sortable = Some True,
           ctype = Some StringT\<rparr>,
         \<lparr>field = ''b'', headerName = ''B'', width = None, sortable = Some True,
           ctype = Some StringT\<rparr>,
         \<lparr>field = ''c'', headerName = ''C'', width = None, sortable = Some True,
           ctype = Some StringT\<rparr>]
        ''| 1 || 3 |'' = Inr r
        \<and> map_of r ''b'' = Some (Str ''3'')
        \<and> map_of r ''c'' = None)"
proof -
  let ?cols = "[\<lparr>field = ''a'', headerName = ''A'', width = None, sortable = Some True,
                  ctype = Some StringT\<rparr>,
                \<lparr>field = ''b'', headerName = ''B'', width = None, sortable = Some True,
                  ctype = Some StringT\<rparr>,
                \<lparr>field = ''c'', headerName = ''C'', width = None, sortable = Some True,
                  ctype = Some StringT\<rparr>]"
  let ?line = "''| 1 || 3 |''"
  have d: "distinct (map field ?cols)"
    by simp
  have cells: "split_cells ?line = [''1'', ''3'']"
    by (simp add: split_cells_def trim_def is_ws_def truthy_def)
  from row_cells_zip_columns [of ?line ?cols 1]
  have "make_row ?cols ?line = Inr (foldl store_cell [] (zip ?cols (split_cells ?line)))"
    by blast
  then have built: "make_row ?cols ?line = Inr [(''a'', Str ''1''), (''b'', Str ''3'')]"
    by (simp add: cells store_cell_def cell_value_def)
  from row_cells_zip_columns [of ?line ?cols 1] d
  obtain r1 where r1: "make_row ?cols ?line = Inr r1"
    and second: "map_of r1 (field (?cols ! 1))
                 = (if 1 < length (split_cells ?line)
                    then Some (cell_value (?cols ! 1) (split_cells ?line ! 1)) else None)"
    by auto
  from row_cells_zip_columns [of ?line ?cols 2] d
  obtain r2 where r2: "make_row ?cols ?line = Inr r2"
    and third: "map_of r2 (field (?cols ! 2))
                = (if 2 < length (split_cells ?line)
                   then Some (cell_value (?cols ! 2) (split_cells ?line ! 2)) else None)"
    by auto
  from r1 r2 have same: "r2 = r1"
    by simp
  from second have b: "map_of r1 ''b'' = Some (Str ''3'')"
    by (simp add: cells cell_value_def)
  from third same have c: "map_of r1 ''c'' = None"
    by (simp add: cells)
  from r1 b c have "\<exists>r. make_row ?cols ?line = Inr r
        \<and> map_of r ''b'' = Some (Str ''3'') \<and> map_of r ''c'' = None"
    by blast
  with d built show ?thesis
    by (intro conjI)
qed

section \<open>Properties of the splitter\<close>

text \<open>
  C5, as claimed: on a text without table lines the single text part holds the trimmed
  input. The code keeps the content untrimmed: for the input \<open> a\<close> (a space, then
  \<open>a\<close>) the part holds the space as well.
\<close>

theorem text_part_not_trimmed:
  "splitContentWithTables '' a'' = [\<lparr>part_type = TextPart, part_content = '' a''\<rparr>]
   \<and> trim '' a'' = ''a''
   \<and> splitContentWithTables '' a'' \<noteq> [\<lparr>part_type = TextPart, part_content = trim '' a''\<rparr>]"
  by (simp add: splitContentWithTables_def split_step_def push_part_def trim_def is_ws_def
      truthy_def)

text \<open>
  C5, amended: for every input in which no line's trimmed form starts with a pipe,
  \<open>splitContentWithTables\<close> returns a single text part whose content is the input as it
  is (not trimmed) when the trimmed input is not empty, and no part at all when it is.
\<close>

theorem split_without_table_lines:
  assumes "list_all (\<lambda>line. \<not> startsWith (trim line) ''|'') (split (CHR 0x0A) input)"
  shows "splitContentWithTables input
         = (if trim input \<noteq> [] then [\<lparr>part_type = TextPart, part_content = input\<rparr>] else [])"
  using assms split_text_lines [of input]
  by (simp add: list_all_iff truthy_def)

theorem split_without_table_lines_witness:
  "list_all (\<lambda>line. \<not> startsWith (trim line) ''|'')
     (split (CHR 0x0A) ('' Hello'' @ [CHR 0x0A] @ ''a|b ''))
   \<and> splitContentWithTables ('' Hello'' @ [CHR 0x0A] @ ''a|b '')
     = [\<lparr>part_type = TextPart, part_content = '' Hello'' @ [CHR 0x0A] @ ''a|b ''\<rparr>]"
proof -
  have h: "list_all (\<lambda>line. \<not> startsWith (trim line) ''|'')
             (split (CHR 0x0A) ('' Hello'' @ [CHR 0x0A] @ ''a|b ''))"
    by (simp add: trim_def is_ws_def)
  have t: "trim ('' Hello'' @ [CHR 0x0A] @ ''a|b '') \<noteq> []"
    by (simp add: trim_def is_ws_def)
  from split_without_table_lines [OF h] h t show ?thesis
    by simp
qed

section \<open>Properties of the table component\<close>



text \<open>
  C7. The exported text is the header names joined by commas, then one line per row of
  the filtered and sorted rows, the lines joined by line feeds. A line is the row's
  values at the columns' fields, in column order, each printed as a string, with every
  double quote doubled, between two double quotes, joined by commas. The cell
  \<open>He said "hi", ok\<close> is exported as \<open>"He said ""hi"", ok"\<close>; with a search for \<open>c\<close>
  and a sort by rank, only the matching rows are exported, in rank order.
\<close>

theorem csv_export_content:
  "csvContent h cols st rws
   = join [CHR 0x0A]
       (join '','' (map headerName cols)
        # map (\<lambda>r. join '','' (map (\<lambda>col. [CHR 0x22]
                                            @ double_quotes (to_String h (map_of r (field col)))
                                            @ [CHR 0x22]) cols))
            (filteredRows h st rws))
   \<and> double_quotes [] = []
   \<and> double_quotes (ch # s)
     = (if ch = CHR 0x22 then [CHR 0x22, CHR 0x22] else [ch]) @ double_quotes s
   \<and> csv_cell h [(''q'', Str (''He said '' @ [CHR 0x22] @ ''hi'' @ [CHR 0x22] @ '', ok''))]
        \<lparr>field = ''q'', headerName = ''Quote'', width = None, sortable = None, ctype = None\<rparr>
     = [CHR 0x22] @ ''He said '' @ [CHR 0x22, CHR 0x22] @ ''hi'' @ [CHR 0x22, CHR 0x22]
       @ '', ok'' @ [CHR 0x22]
   \<and> csvContent h
        [\<lparr>field = ''branch'', headerName = ''Branch'', width = None, sortable = None,
           ctype = None\<rparr>,
         \<lparr>field = ''rank'', headerName = ''Rank'', width = None, sortable = None,
           ctype = None\<rparr>]
        \<lparr>sortColumn = ''rank'', sortDirection = Asc, searchQuery = ''c'', showSearch = True\<rparr>
        [[(''branch'', Str ''CS''), (''rank'', Num (Fin 462))],
         [(''branch'', Str ''ME''), (''rank'', Num (Fin 900))],
         [(''branch'', Str ''EC''), (''rank'', Num (Fin 290))]]
     = ''Branch,Rank'' @ [CHR 0x0A]
       @ [CHR 0x22] @ ''EC'' @ [CHR 0x22] @ '','' @ [CHR 0x22] @ ''290'' @ [CHR 0x22]
       @ [CHR 0x0A]
       @ [CHR 0x22] @ ''CS'' @ [CHR 0x22] @ '','' @ [CHR 0x22] @ ''462'' @ [CHR 0x22]"
proof -
  have shape: "csvContent h cols st rws
     = join [CHR 0x0A]
         (join '','' (map headerName cols)
          # map (\<lambda>r. join '','' (map (\<lambda>col. [CHR 0x22]
                                              @ double_quotes (to_String h (map_of r (field col)))
                                              @ [CHR 0x22]) cols))
              (filteredRows h st rws))"
    by (simp add: csvContent_def csv_cell_def [abs_def] Let_def)
  have quotes: "double_quotes [] = []"
    "double_quotes (ch # s)
     = (if ch = CHR 0x22 then [CHR 0x22, CHR 0x22] else [ch]) @ double_quotes s"
    by (simp_all add: double_quotes_def)
  have cell: "csv_cell h [(''q'', Str (''He said '' @ [CHR 0x22] @ ''hi'' @ [CHR 0x22] @ '', ok''))]
        \<lparr>field = ''q'', headerName = ''Quote'', width = None, sortable = None, ctype = None\<rparr>
     = [CHR 0x22] @ ''He said '' @ [CHR 0x22, CHR 0x22] @ ''hi'' @ [CHR 0x22, CHR 0x22]
       @ '', ok'' @ [CHR 0x22]"
    by (simp add: csv_cell_def double_quotes_def to_String_def)
  have export: "csvContent h
        [\<lparr>field = ''branch'', headerName = ''Branch'', width = None, sortable = None,
           ctype = None\<rparr>,
         \<lparr>field = ''rank'', headerName = ''Rank'', width = None, sortable = None,
           ctype = None\<rparr>]
        \<lparr>sortColumn = ''rank'', sortDirection = Asc, searchQuery = ''c'', showSearch = True\<rparr>
        [[(''branch'', Str ''CS''), (''rank'', Num (Fin 462))],
         [(''branch'', Str ''ME''), (''rank'', Num (Fin 900))],
         [(''branch'', Str ''EC''), (''rank'', Num (Fin 290))]]
     = ''Branch,Rank'' @ [CHR 0x0A]
       @ [CHR 0x22] @ ''EC'' @ [CHR 0x22] @ '','' @ [CHR 0x22] @ ''290'' @ [CHR 0x22]
       @ [CHR 0x0A]
       @ [CHR 0x22] @ ''CS'' @ [CHR 0x22] @ '','' @ [CHR 0x22] @ ''462'' @ [CHR 0x22]"
    by (simp add: csvContent_def filteredRows_def sortedRows_def truthy_def trim_def is_ws_def
        array_sort_def compareRows_def num_gt_def toLowerCase_def lower_char_def
        csv_cell_def double_quotes_def to_String_def numToString_def char_of_def bit_0)
  from shape quotes cell export show ?thesis
    by (simp only: simp_thms)
qed

text \<open>
  C8. For a cell whose column field contains \<open>cutoff\<close> or \<open>rank\<close> and whose value is a
  number, the badge is fixed by the value alone, whatever the highlight rules: gold up
  to 1000, silver above 1000 and up to 5000, bronze above 5000 and up to 20000, none
  above 20000. (The infinities follow the same comparisons: gold for the negative one,
  no badge for the positive one.)
\<close>

theorem rank_badge_thresholds:
  assumes "includes_str (field col) ''cutoff'' \<or> includes_str (field col) ''rank''"
    and "map_of r (field col) = Some (Num (Fin v))"
  shows "snd (cell_decoration highlightRules col r)
         = (if v \<le> 1000 then Some \<lparr>badge_icon = EmojiEvents, badge_color = ''gold''\<rparr>
            else if v \<le> 5000 then Some \<lparr>badge_icon = School, badge_color = ''silver''\<rparr>
            else if v \<le> 20000 then Some \<lparr>badge_icon = TrendingUp, badge_color = ''bronze''\<rparr>
            else None)
         \<and> snd (cell_decoration highlightRules col r) = snd (cell_decoration [] col r)
         \<and> getRankBadge NegInf = Some \<lparr>badge_icon = EmojiEvents, badge_color = ''gold''\<rparr>
         \<and> getRankBadge PosInf = None"
proof -
  from assms(1) have rank_column:
    "includes_str (toLowerCase (field col)) ''cutoff''
     \<or> includes_str (toLowerCase (field col)) ''rank''"
    using includes_str_toLowerCase_cutoff includes_str_toLowerCase_rank by blast
  then have "snd (cell_decoration rules col r) = getRankBadge (Fin v)" for rules
    using assms(2) by (simp add: cell_decoration_def Let_def)
  then show ?thesis
    by (simp add: getRankBadge_def)
qed

theorem rank_badge_thresholds_witness:
  "includes_str ''cutoff_rank'' ''rank''
   \<and> snd (cell_decoration [\<lparr>rule_column = ''cutoff_rank'', threshold = Fin 5000, color = Success\<rparr>]
            \<lparr>field = ''cutoff_rank'', headerName = ''Cutoff Rank'', width = None,
              sortable = Some True, ctype = Some NumberT\<rparr>
            [(''cutoff_rank'', Num (Fin 950))])
     = Some \<lparr>badge_icon = EmojiEvents, badge_color = ''gold''\<rparr>
   \<and> snd (cell_decoration []
            \<lparr>field = ''cutoff_rank'', headerName = ''Cutoff Rank'', width = None,
              sortable = Some True, ctype = Some NumberT\<rparr>
            [(''cutoff_rank'', Num (Fin 1500))])
     = Some \<lparr>badge_icon = School, badge_color = ''silver''\<rparr>
   \<and> snd (cell_decoration []
            \<lparr>field = ''cutoff_rank'', headerName = ''Cutoff Rank'', width = None,
              sortable = Some True, ctype = Some NumberT\<rparr>
            [(''cutoff_rank'', Num (Fin 25000))])
     = None"
proof -
  let ?col = "\<lparr>field = ''cutoff_rank'', headerName = ''Cutoff Rank'', width = None,
               sortable = Some True, ctype = Some NumberT\<rparr>"
  have name: "includes_str ''cutoff_rank'' ''rank''"
    by simp
  then have h: "includes_str (field ?col) ''cutoff'' \<or> includes_str (field ?col) ''rank''"
    by simp
  have v: "map_of [(''cutoff_rank'', Num (Fin n))] (field ?col) = Some (Num (Fin n))" for n
    by simp
  from rank_badge_thresholds [OF h v, of _ 950]
    rank_badge_thresholds [OF h v, of _ 1500]
    rank_badge_thresholds [OF h v, of _ 25000] name
  show ?thesis
    by simp
qed

end
